theory Spec2Isabelle
  imports Main "HOL-Library.Word" "HOL-Library.Sublist"
begin

section \<open>Data model of package colony (services.go)\<close>

text \<open>
  Go strings are byte sequences and are modelled as \<open>string\<close>; a \<open>[]byte\<close> is a list of
  8-bit words. \<open>time.Time\<close> is an abstract instant (an integer count), and the value of
  \<open>time.Now()\<close> is passed to the functions that read the clock. An \<open>error\<close> value is
  the text that \<open>err.Error()\<close> yields; a nil error is \<open>None\<close>.
\<close>

type_synonym bytes = "8 word list"
type_synonym time = int
type_synonym error = string

text \<open>\<open>type topic struct { ServiceName, ServiceID, ContentType string }\<close>\<close>

record topic =
  ServiceName :: string
  ServiceID :: string
  ContentType :: string

text \<open>\<open>func (t topic) getName() string\<close>\<close>

definition getName :: "topic \<Rightarrow> string" where
  "getName t = ServiceName t @ ''-'' @ ServiceID t @ ''-'' @ ContentType t"

type_synonym messageID = string

text \<open>
  \<open>type Message struct\<close>. The field \<open>ContentType\<close> of the Go struct is named
  \<open>MsgContentType\<close> here, since the topic record already owns the selector \<open>ContentType\<close>.
\<close>

record Message =
  FromName :: string
  Payload :: bytes
  Time :: time
  MsgContentType :: string
  MessageID :: messageID
  Topic :: topic
  ResponseTopic :: topic

text \<open>
  \<open>type handlerIDPair struct { h Handler; id messageID }\<close>. A \<open>Handler\<close> is a Go function
  value; the model keeps it abstract as a type parameter \<open>'h\<close>. The field \<open>id\<close> is
  named \<open>id'\<close> because \<open>id\<close> is the identity function of HOL.
\<close>

record 'h handlerIDPair =
  h :: 'h
  id' :: messageID

text \<open>
  A \<open>chan Message\<close> is identified by the number of the \<open>make(chan Message)\<close> call that
  created it.
\<close>

type_synonym chan = nat

text \<open>
  \<open>type Service struct\<close>. The counter \<open>i\<close> is a Go \<open>int\<close>, 64 bits wide on the
  platforms the package targets, with wrap-around addition. The three request channels
  and the NSQ producer are not data of the model: what is sent on them appears as the
  requests and actions defined below.
\<close>

record Service =
  Name :: string
  ID :: string
  i :: "64 word"
  handlers :: "messageID \<rightharpoonup> chan"
  nsqLookupdHTTPAddr :: string
  nsqdAddr :: string
  nsqdHTTPAddr :: string
  responseTopic :: topic

section \<open>Message construction\<close>

text \<open>\<open>func (s *Service) NewResponse(m Message, contentType string, payload []byte) Message\<close>\<close>

definition NewResponse ::
  "'a Service_scheme \<Rightarrow> time \<Rightarrow> Message \<Rightarrow> string \<Rightarrow> bytes \<Rightarrow> Message" where
  "NewResponse s now m contentType payload =
     \<lparr> FromName = Name s,
       Payload = payload,
       Time = now,
       MsgContentType = contentType,
       MessageID = MessageID m,
       Topic = ResponseTopic m,
       ResponseTopic = responseTopic s \<rparr>"


text \<open>
  \<open>func NewService(name, id, nsqLookupd string) *Service\<close>, after the NSQ daemon has been
  picked: the struct literal of the source, with the addresses of the chosen daemon as
  arguments. The counter \<open>i\<close> has the zero value and the handler map is empty.
\<close>

definition NewService :: "string \<Rightarrow> string \<Rightarrow> string \<Rightarrow> string \<Rightarrow> string \<Rightarrow> Service" where
  "NewService name ident nsqLookupd addr httpAddr =
     \<lparr> Name = name,
       ID = ident,
       i = 0,
       handlers = Map.empty,
       nsqLookupdHTTPAddr = nsqLookupd,
       nsqdAddr = addr,
       nsqdHTTPAddr = httpAddr,
       responseTopic = \<lparr>ServiceName = name, ServiceID = ident, ContentType = ''responses''\<rparr> \<rparr>"

section \<open>The service actor: \<open>func (s Service) start()\<close>\<close>

text \<open>
  The \<open>for { select { ... } }\<close> loop of \<open>start\<close> receives from three unbuffered channels.
  A received value is a request, tagged with the channel it arrived on.
\<close>

datatype 'h request =
    addHandlerChan "'h handlerIDPair"
  | removeHandlerChan "'h handlerIDPair"
  | callHandlerChan Message

text \<open>
  What the loop does besides updating the handler map: it starts a goroutine that runs
  \<open>pair.h(c)\<close> on a channel \<open>c\<close>, and it sends a message on a channel (\<open>c <- msg\<close>).
\<close>

datatype 'h effect =
    Go chan "'h handlerIDPair"
  | Send chan Message

text \<open>
  The state of the running loop extends the service by the number of channels made so
  far (the next \<open>make(chan Message)\<close> yields the channel with that number) and by the
  effects performed so far, oldest first.
\<close>

record 'h actor = Service +
  made :: nat
  trace :: "'h effect list"

text \<open>
  One iteration of the loop that runs to its end, for the request that the \<open>select\<close>
  received. The send \<open>c <- msg\<close> is a rendezvous with the handler: \<open>start_step\<close> gives
  the state after the handler has taken the message. Whether and when the handler takes
  it, and what the loop can do meanwhile, is the matter of \<open>sys_step\<close> below.
\<close>

fun start_step :: "'h actor \<Rightarrow> 'h request \<Rightarrow> 'h actor" where
  "start_step s (addHandlerChan pair) =
     (let c = made s in
      s\<lparr> handlers := (handlers s)(id' pair \<mapsto> c),
         made := Suc c,
         trace := trace s @ [Go c pair] \<rparr>)"
| "start_step s (removeHandlerChan pair) =
     s\<lparr> handlers := (handlers s)(id' pair := None) \<rparr>"
| "start_step s (callHandlerChan msg) =
     (case handlers s (MessageID msg) of
        None \<Rightarrow> s
      | Some c \<Rightarrow> s\<lparr> trace := trace s @ [Send c msg] \<rparr>)"

text \<open>The loop on a sequence of received requests.\<close>

definition start :: "'h actor \<Rightarrow> 'h request list \<Rightarrow> 'h actor" where
  "start s reqs = foldl start_step s reqs"

text \<open>\<open>go s.start()\<close> on a service: no channel made, nothing done yet.\<close>

definition go_start :: "Service \<Rightarrow> 'h actor" where
  "go_start s =
     \<lparr> Name = Name s,
       ID = ID s,
       i = i s,
       handlers = handlers s,
       nsqLookupdHTTPAddr = nsqLookupdHTTPAddr s,
       nsqdAddr = nsqdAddr s,
       nsqdHTTPAddr = nsqdHTTPAddr s,
       responseTopic = responseTopic s,
       made = 0,
       trace = [] \<rparr>"

text \<open>
  How a call ends: it returns a value, or \<open>log.Fatal\<close> ends the process with a message,
  or it does not return.
\<close>

datatype 'a outcome = Return 'a | Fatal error | NoReturn

text \<open>
  The goroutine that \<open>start\<close> launches for a registered pair, given how \<open>pair.h(c)\<close> ends.
  It returns the request it sends to the actor.
  \<^verbatim>\<open>
  go func() {
      err := pair.h(c)
      if err != nil { log.Fatal(err.Error()) }
      s.removeHandlerChan <- pair
  }()\<close>
\<close>

definition handler_goroutine ::
  "'h handlerIDPair \<Rightarrow> error option outcome \<Rightarrow> 'h request outcome" where
  "handler_goroutine pair res =
     (case res of
        Return None \<Rightarrow> Return (removeHandlerChan pair)
      | Return (Some err) \<Rightarrow> Fatal err
      | Fatal e \<Rightarrow> Fatal e
      | NoReturn \<Rightarrow> NoReturn)"


text \<open>
  The invariant of the loop that the routing property rests on: every channel in the
  handler map was handed to a goroutine started for a pair with that id, every channel
  handed out has a number below \<open>made\<close>, no channel was handed out twice, and every
  message sent went to a channel whose pair has the id of the message.
\<close>

definition actor_inv :: "'h actor \<Rightarrow> bool" where
  "actor_inv s \<longleftrightarrow>
     (\<forall>k c. handlers s k = Some c \<longrightarrow> (\<exists>p. Go c p \<in> set (trace s) \<and> id' p = k)) \<and>
     (\<forall>c p. Go c p \<in> set (trace s) \<longrightarrow> c < made s) \<and>
     (\<forall>c p q. Go c p \<in> set (trace s) \<longrightarrow> Go c q \<in> set (trace s) \<longrightarrow> p = q) \<and>
     (\<forall>c m. Send c m \<in> set (trace s) \<longrightarrow>
        (\<exists>p. Go c p \<in> set (trace s) \<and> id' p = MessageID m))"

section \<open>The actor loop together with its handler goroutines\<close>

text \<open>
  The goroutine that \<open>start\<close> launches for a pair is in one of three places: its handler
  function \<open>pair.h(c)\<close> is running; the handler function has returned nil and the
  goroutine offers a request to the loop (it is at \<open>s.removeHandlerChan <- pair\<close>); or the
  loop has received the request and the goroutine has ended.
\<close>

datatype 'h gstate = Running | Offering "'h request" | Finished

text \<open>
  The state of a running service: the state of the loop; the message that the loop is
  sending when it is at \<open>c <- msg\<close> and no handler has taken it yet; the goroutines
  launched, by the channel each was given; and the text that \<open>log.Fatal\<close> ended the process
  with, if it did. While the loop is at \<open>c <- msg\<close> it does not change the handler map,
  so \<open>c\<close> is the entry of the map for the id of the pending message.
\<close>

record 'h system =
  loop :: "'h actor"
  pending :: "Message option"
  goroutines :: "chan \<rightharpoonup> 'h handlerIDPair \<times> 'h gstate"
  dead :: "error option"

text \<open>
  What can happen next:
  \<^item> \<open>Register pair\<close>: the \<open>select\<close> receives \<open>pair\<close> from \<open>addHandlerChan\<close>;
  \<^item> \<open>Dispatch msg\<close>: the \<open>select\<close> receives \<open>msg\<close> from \<open>callHandlerChan\<close>;
  \<^item> \<open>Deliver\<close>: the handler function on the channel of the pending message receives it;
  \<^item> \<open>HandlerReturn c res\<close>: the handler function on channel \<open>c\<close> returns \<open>res\<close>;
  \<^item> \<open>Serve c\<close>: the \<open>select\<close> receives what the goroutine of channel \<open>c\<close> offers on
    \<open>removeHandlerChan\<close>.
\<close>

datatype 'h event =
    Register "'h handlerIDPair"
  | Dispatch Message
  | Deliver
  | HandlerReturn chan "error option"
  | Serve chan

text \<open>The service after \<open>go s.start()\<close>: the loop at its \<open>select\<close>, no goroutine launched.\<close>

definition go_system :: "Service \<Rightarrow> 'h system" where
  "go_system svc = \<lparr> loop = go_start svc, pending = None, goroutines = Map.empty, dead = None \<rparr>"

text \<open>
  One event in a process that is alive; \<open>None\<close> when the event cannot happen in the state.
  The \<open>select\<close> receives only while the loop is not at \<open>c <- msg\<close>. A dispatch for an id
  without entry ends the iteration at once (\<open>continue\<close>); for an id with an entry the loop
  stays at \<open>c <- msg\<close> until the handler function of that channel, still running,
  receives the message. A handler function that returns takes its goroutine on as
  \<open>handler_goroutine\<close> says: to \<open>log.Fatal\<close>, or to the offer of its pair for removal.
\<close>

fun live_step :: "'h system \<Rightarrow> 'h event \<Rightarrow> 'h system option" where
  "live_step s (Register pair) =
     (if pending s \<noteq> None then None
      else Some (s\<lparr> loop := start_step (loop s) (addHandlerChan pair),
                    goroutines := (goroutines s)(made (loop s) \<mapsto> (pair, Running)) \<rparr>))"
| "live_step s (Dispatch msg) =
     (if pending s \<noteq> None then None
      else case handlers (loop s) (MessageID msg) of
             None \<Rightarrow> Some (s\<lparr> loop := start_step (loop s) (callHandlerChan msg) \<rparr>)
           | Some c \<Rightarrow> Some (s\<lparr> pending := Some msg \<rparr>))"
| "live_step s Deliver =
     (case pending s of
        None \<Rightarrow> None
      | Some msg \<Rightarrow>
          (case handlers (loop s) (MessageID msg) of
             None \<Rightarrow> None
           | Some c \<Rightarrow>
               (case goroutines s c of
                  Some (pair, Running) \<Rightarrow>
                    Some (s\<lparr> loop := start_step (loop s) (callHandlerChan msg), pending := None \<rparr>)
                | _ \<Rightarrow> None)))"
| "live_step s (HandlerReturn c res) =
     (case goroutines s c of
        Some (pair, Running) \<Rightarrow>
          (case handler_goroutine pair (Return res) of
             Return req \<Rightarrow> Some (s\<lparr> goroutines := (goroutines s)(c \<mapsto> (pair, Offering req)) \<rparr>)
           | Fatal err \<Rightarrow> Some (s\<lparr> dead := Some err \<rparr>)
           | NoReturn \<Rightarrow> None)
      | _ \<Rightarrow> None)"
| "live_step s (Serve c) =
     (if pending s \<noteq> None then None
      else case goroutines s c of
             Some (pair, Offering req) \<Rightarrow>
               Some (s\<lparr> loop := start_step (loop s) req,
                        goroutines := (goroutines s)(c \<mapsto> (pair, Finished)) \<rparr>)
           | _ \<Rightarrow> None)"

text \<open>After \<open>log.Fatal\<close> nothing happens any more.\<close>

definition sys_step :: "'h system \<Rightarrow> 'h event \<Rightarrow> 'h system option" where
  "sys_step s ev = (if dead s \<noteq> None then None else live_step s ev)"

text \<open>A sequence of events, each possible in the state the ones before it lead to.\<close>

fun sys_run :: "'h system \<Rightarrow> 'h event list \<Rightarrow> 'h system option" where
  "sys_run s [] = Some s"
| "sys_run s (ev # evs) = (case sys_step s ev of None \<Rightarrow> None | Some s' \<Rightarrow> sys_run s' evs)"


section \<open>The collaborators: HTTP, JSON and the NSQ client\<close>

text \<open>
  The functions of \<open>net/http\<close>, \<open>encoding/json\<close> and \<open>go-nsq\<close> that the package calls are
  parameters of the model, one field each:
  \<^item> \<open>http_Get url\<close>: \<open>http.Get\<close> followed by \<open>ioutil.ReadAll\<close>, an error or the body;
  \<^item> \<open>json_Marshal m\<close>: \<open>json.Marshal\<close> of a \<open>Message\<close>;
  \<^item> \<open>json_Unmarshal_Message body\<close>: \<open>json.Unmarshal\<close> into a \<open>Message\<close>;
  \<^item> \<open>json_Unmarshal_lookupdTopic body\<close>: \<open>json.Unmarshal\<close> into a \<open>lookupdTopic\<close>,
    giving its \<open>Data.Topics\<close>;
  \<^item> \<open>json_Status_code body\<close>: the \<open>Status_code\<close> of a \<open>createTopicResponse\<close> after
    \<open>json.Unmarshal\<close>, whose error the source ignores;
  \<^item> \<open>nsq_Publish topic body\<close>: the error that \<open>Producer.Publish\<close> returns;
  \<^item> \<open>nsq_NewConsumer topic channel\<close>: the error that \<open>nsq.NewConsumer\<close> returns.
\<close>

record env =
  http_Get :: "string \<Rightarrow> error + bytes"
  json_Marshal :: "Message \<Rightarrow> error + bytes"
  json_Unmarshal_Message :: "bytes \<Rightarrow> error + Message"
  json_Unmarshal_lookupdTopic :: "bytes \<Rightarrow> error + string list"
  json_Status_code :: "bytes \<Rightarrow> int"
  nsq_Publish :: "string \<Rightarrow> bytes \<Rightarrow> error option"
  nsq_NewConsumer :: "string \<Rightarrow> string \<Rightarrow> error option"

text \<open>
  What an operation of the package does to the outside, in the order it does it:
  a request sent to the actor loop, a message sent on a consumer channel, a publish
  (with the error the producer returned), an HTTP request, a consumer connected to a
  topic and channel, the watcher goroutine started, a handler called.
\<close>

datatype 'h action =
    ToActor "'h request"
  | ToChan chan Message
  | Publish string bytes "error option"
  | HttpGet string
  | Subscribe string string
  | GoWatch string
  | CallHandler 'h

section \<open>Producing\<close>

text \<open>
  \<open>func (s Service) produce(m Message, h Handler) error\<close>. A nil handler is \<open>None\<close>.
  The result is the actions performed and how the call ends.
\<close>

definition produce ::
  "env \<Rightarrow> 'a Service_scheme \<Rightarrow> Message \<Rightarrow> 'h option \<Rightarrow> 'h action list \<times> error option outcome" where
  "produce e s m hf =
     (let reg = (case hf of
                   None \<Rightarrow> []
                 | Some f \<Rightarrow> [ToActor (addHandlerChan \<lparr>h = f, id' = MessageID m\<rparr>)]);
          topic = getName (Topic m)
      in case json_Marshal e m of
           Inl err \<Rightarrow> (reg, Fatal err)
         | Inr out \<Rightarrow> (reg @ [Publish topic out (nsq_Publish e topic out)], Return None))"

text \<open>\<open>func (s Service) Emit(m Message) error\<close>\<close>

definition Emit ::
  "env \<Rightarrow> 'a Service_scheme \<Rightarrow> Message \<Rightarrow> 'h action list \<times> error option outcome" where
  "Emit e s m = produce e s m None"

text \<open>\<open>func (s Service) Request(m Message, h Handler) error\<close>\<close>

definition Request ::
  "env \<Rightarrow> 'a Service_scheme \<Rightarrow> Message \<Rightarrow> 'h option \<Rightarrow> 'h action list \<times> error option outcome" where
  "Request e s m hf = produce e s m hf"

text \<open>\<open>func (s *Service) createTopic(topic string) error\<close>\<close>

definition createTopic ::
  "env \<Rightarrow> 'a Service_scheme \<Rightarrow> string \<Rightarrow> 'h action list \<times> error option outcome" where
  "createTopic e s topic =
     (let url = ''http://'' @ nsqdHTTPAddr s @ ''/create_topic?topic='' @ topic
      in case http_Get e url of
           Inl err \<Rightarrow> ([HttpGet url], Fatal err)
         | Inr body \<Rightarrow>
             ([HttpGet url],
              if json_Status_code e body \<noteq> 200
              then Return (Some (''could not creat topic '' @ topic))
              else Return None))"

text \<open>
  \<open>func (s Service) Announce(contentType string) error\<close>. The fields that the struct
  literal leaves out have their zero values.
\<close>

definition Announce ::
  "env \<Rightarrow> 'a Service_scheme \<Rightarrow> time \<Rightarrow> string \<Rightarrow> 'h action list \<times> error option outcome" where
  "Announce e s now contentType =
     (let topicToAnnounce =
            \<lparr>ServiceName = Name s, ServiceID = ID s, ContentType = contentType\<rparr>;
          m = \<lparr> FromName = Name s,
                Payload = [],
                Time = now,
                MsgContentType = contentType,
                MessageID = [],
                Topic = topicToAnnounce,
                ResponseTopic = \<lparr>ServiceName = [], ServiceID = [], ContentType = []\<rparr> \<rparr>
      in case json_Marshal e m of
           Inl err \<Rightarrow> ([], Fatal err)
         | Inr out \<Rightarrow>
             (case createTopic e s (getName topicToAnnounce) of
                (acts, Fatal err) \<Rightarrow> (acts, Fatal err)
              | (acts, NoReturn) \<Rightarrow> (acts, NoReturn)
              | (acts, Return r) \<Rightarrow>
                  (acts @ [Publish ''colony-announce'' out (nsq_Publish e ''colony-announce'' out)],
                   Return None)))"

section \<open>The response router and the queue consumer\<close>

text \<open>
  \<open>func (s Service) HandleMessage(m *nsq.Message) error\<close>, on the body of the NSQ
  message. The value returned goes to the NSQ consumer that called the handler.
\<close>

definition HandleMessage ::
  "env \<Rightarrow> bytes \<Rightarrow> 'h action list \<times> error option outcome" where
  "HandleMessage e body =
     (case json_Unmarshal_Message e body of
        Inl err \<Rightarrow> ([], Return (Some err))
      | Inr out \<Rightarrow> ([ToActor (callHandlerChan out)], Return None))"

text \<open>\<open>func (c queueConsumer) HandleMessage(m *nsq.Message) error\<close>, for the channel \<open>c.C\<close>.\<close>

definition queueConsumer_HandleMessage ::
  "env \<Rightarrow> chan \<Rightarrow> bytes \<Rightarrow> 'h action list \<times> error option outcome" where
  "queueConsumer_HandleMessage e C body =
     (case json_Unmarshal_Message e body of
        Inl err \<Rightarrow> ([], Fatal err)
      | Inr out \<Rightarrow> ([ToChan C out], Return None))"

section \<open>Consuming\<close>

text \<open>
  \<open>strings.HasSuffix(s, suffix)\<close> of the Go standard library:
  \<^verbatim>\<open>len(s) >= len(suffix) && s[len(s)-len(suffix):] == suffix\<close>
\<close>

definition HasSuffix :: "string \<Rightarrow> string \<Rightarrow> bool" where
  "HasSuffix s suf \<longleftrightarrow>
     length s \<ge> length suf \<and> drop (length s - length suf) s = suf"

text \<open>
  The loop of \<open>lookupTopics\<close> over \<open>t.Data.Topics\<close>, with the slice \<open>out\<close> as accumulator:
  \<^verbatim>\<open>
  for _, topic := range t.Data.Topics {
      if strings.HasSuffix(topic, contentType) { out = append(out, topic) }
  }\<close>
\<close>

fun lookupTopics_loop :: "string \<Rightarrow> string list \<Rightarrow> string list \<Rightarrow> string list" where
  "lookupTopics_loop contentType [] out = out"
| "lookupTopics_loop contentType (topic # rest) out =
     lookupTopics_loop contentType rest
       (if HasSuffix topic contentType then out @ [topic] else out)"

text \<open>\<open>func (s Service) lookupTopics(contentType string) []string\<close>\<close>

definition lookupTopics ::
  "env \<Rightarrow> 'a Service_scheme \<Rightarrow> string \<Rightarrow> string list outcome" where
  "lookupTopics e s contentType =
     (case http_Get e (''http://'' @ nsqLookupdHTTPAddr s @ ''/topics'') of
        Inl err \<Rightarrow> Fatal err
      | Inr body \<Rightarrow>
          (case json_Unmarshal_lookupdTopic e body of
             Inl err \<Rightarrow> Fatal err
           | Inr topics \<Rightarrow> Return (lookupTopics_loop contentType topics [])))"

text \<open>
  The loop of \<open>newConsumer\<close> over \<open>topicsToConsume\<close>: a consumer is created for the topic
  on the given channel, given the queue handler and connected; an error of
  \<open>nsq.NewConsumer\<close> ends the process there.
\<close>

fun newConsumer_loop ::
  "env \<Rightarrow> string \<Rightarrow> string list \<Rightarrow> 'h action list \<times> unit outcome" where
  "newConsumer_loop e channel [] = ([], Return ())"
| "newConsumer_loop e channel (topic # rest) =
     (case nsq_NewConsumer e topic channel of
        Some err \<Rightarrow> ([], Fatal err)
      | None \<Rightarrow>
          (case newConsumer_loop e channel rest of
             (acts, r) \<Rightarrow> (Subscribe topic channel # acts, r)))"

text \<open>\<open>func (s Service) newConsumer(contentType string) consumer\<close>\<close>

definition newConsumer ::
  "env \<Rightarrow> 'a Service_scheme \<Rightarrow> string \<Rightarrow> 'h action list \<times> unit outcome" where
  "newConsumer e s contentType =
     (case lookupTopics e s contentType of
        Fatal err \<Rightarrow> ([], Fatal err)
      | NoReturn \<Rightarrow> ([], NoReturn)
      | Return topicsToConsume \<Rightarrow>
          (case newConsumer_loop e (Name s @ ''-'' @ ID s) topicsToConsume of
             (acts, Return u) \<Rightarrow> (acts @ [GoWatch contentType], Return ())
           | (acts, Fatal err) \<Rightarrow> (acts, Fatal err)
           | (acts, NoReturn) \<Rightarrow> (acts, NoReturn)))"

text \<open>
  \<open>func (s Service) Consume(contentType string, h Handler) error\<close>, given how the call
  \<open>h(consumer.C)\<close> ends. The value that the handler returns is dropped.
\<close>

definition Consume ::
  "env \<Rightarrow> 'a Service_scheme \<Rightarrow> string \<Rightarrow> 'h \<Rightarrow> error option outcome \<Rightarrow>
   'h action list \<times> error option outcome" where
  "Consume e s contentType hf res =
     (case newConsumer e s contentType of
        (acts, Fatal err) \<Rightarrow> (acts, Fatal err)
      | (acts, NoReturn) \<Rightarrow> (acts, NoReturn)
      | (acts, Return u) \<Rightarrow>
          (acts @ [CallHandler hf],
           case res of
             Return r \<Rightarrow> Return None
           | Fatal err \<Rightarrow> Fatal err
           | NoReturn \<Rightarrow> NoReturn))"

section \<open>Message ids\<close>

text \<open>
  \<open>strconv.Itoa\<close> of the Go standard library: the decimal digits of the magnitude, most
  significant first, after a minus sign for a negative number.
\<close>

fun formatBits :: "nat \<Rightarrow> string" where
  "formatBits u =
     (if u < 10 then [char_of (48 + u)]
      else formatBits (u div 10) @ [char_of (48 + u mod 10)])"

declare formatBits.simps [simp del]

definition Itoa :: "int \<Rightarrow> string" where
  "Itoa n = (if n < 0 then CHR ''-'' # formatBits (nat (- n)) else formatBits (nat n))"

text \<open>
  \<open>func (s *Service) nextID() messageID\<close>. The addition is that of a 64-bit \<open>int\<close>; the
  result is the id and the service with the counter stored.
\<close>

definition nextID :: "'a Service_scheme \<Rightarrow> messageID \<times> 'a Service_scheme" where
  "nextID s = (let s' = s\<lparr> i := i s + 1 \<rparr> in (Itoa (sint (i s')), s'))"

text \<open>\<open>func (s *Service) NewMessage(contentType string, payload []byte) Message\<close>\<close>

definition NewMessage ::
  "'a Service_scheme \<Rightarrow> time \<Rightarrow> string \<Rightarrow> bytes \<Rightarrow> Message \<times> 'a Service_scheme" where
  "NewMessage s now contentType payload =
     (let from = \<lparr>ServiceName = Name s, ServiceID = ID s, ContentType = contentType\<rparr>
      in case nextID s of
           (mid, s') \<Rightarrow>
             (\<lparr> FromName = Name s,
                Payload = payload,
                Time = now,
                MsgContentType = contentType,
                MessageID = mid,
                Topic = from,
                ResponseTopic = responseTopic s \<rparr>, s'))"

text \<open>
  Successive calls of \<open>NewMessage\<close> on one service, each with its clock reading, content
  type and payload: the messages created, in the order of the calls.
\<close>

fun NewMessage_calls ::
  "'a Service_scheme \<Rightarrow> (time \<times> string \<times> bytes) list \<Rightarrow> Message list" where
  "NewMessage_calls s [] = []"
| "NewMessage_calls s ((now, contentType, payload) # rest) =
     (case NewMessage s now contentType payload of
        (m, s') \<Rightarrow> m # NewMessage_calls s' rest)"

text \<open>
  The integer that a message id denotes: the value of its decimal digits, negated after
  a leading minus sign.
\<close>

definition digits_value :: "string \<Rightarrow> nat" where
  "digits_value ds = foldl (\<lambda>a c. 10 * a + (of_char c - 48)) 0 ds"

definition id_value :: "messageID \<Rightarrow> int" where
  "id_value s =
     (case s of
        [] \<Rightarrow> 0
      | c # ds \<Rightarrow>
          if c = CHR ''-'' then - int (digits_value ds) else int (digits_value (c # ds)))"

section \<open>Example values\<close>

text \<open>A response from service bob/2 to service alice/1 that carries the message id \<open>k\<close>.\<close>

definition msg_with_id :: "messageID \<Rightarrow> Message" where
  "msg_with_id k =
     \<lparr> FromName = ''bob'',
       Payload = [],
       Time = 0,
       MsgContentType = ''ack'',
       MessageID = k,
       Topic = \<lparr>ServiceName = ''alice'', ServiceID = ''1'', ContentType = ''responses''\<rparr>,
       ResponseTopic = \<lparr>ServiceName = ''bob'', ServiceID = ''2'', ContentType = ''responses''\<rparr> \<rparr>"

text \<open>
  Collaborators for the examples: the topic registry lists four topics, every JSON body
  but one fails to decode into a message, topic creation answers with status 500, every
  publish fails and every consumer can be created.
\<close>

definition example_env :: env where
  "example_env =
     \<lparr> http_Get = (\<lambda>url. if url = ''http://l:4161/topics'' then Inr [1] else Inr [2]),
       json_Marshal = (\<lambda>m. Inr [3]),
       json_Unmarshal_Message = (\<lambda>body. if body = [3] then Inr (msg_with_id ''7'')
                                          else Inl ''unexpected end of JSON input''),
       json_Unmarshal_lookupdTopic = (\<lambda>body. Inr [''bob-2-bees'', ''bob-2-bees-wax'', ''carol-3-bees'', ''bees'']),
       json_Status_code = (\<lambda>body. 500),
       nsq_Publish = (\<lambda>topic body. Some ''not connected''),
       nsq_NewConsumer = (\<lambda>topic channel. None) \<rparr>"

section \<open>Properties\<close>

subsection \<open>Topic naming\<close>

lemma sep_split_unique:
  assumes "CHR ''-'' \<notin> set a" and "CHR ''-'' \<notin> set b"
    and "a @ ''-'' @ r = b @ ''-'' @ r'"
  shows "a = b \<and> r = r'"
  using assms
proof (induction a arbitrary: b)
  case Nil
  then show ?case by (cases b) auto
next
  case (Cons x a)
  then show ?case by (cases b) auto
qed

lemma getName_inj_names:
  assumes "CHR ''-'' \<notin> set (ServiceName t)" and "CHR ''-'' \<notin> set (ServiceID t)"
    and "CHR ''-'' \<notin> set (ServiceName u)" and "CHR ''-'' \<notin> set (ServiceID u)"
    and "getName t = getName u"
  shows "t = u"
proof -
  from assms(5) have e: "ServiceName t @ ''-'' @ (ServiceID t @ ''-'' @ ContentType t)
      = ServiceName u @ ''-'' @ (ServiceID u @ ''-'' @ ContentType u)"
    by (simp add: getName_def)
  from sep_split_unique [OF assms(1) assms(3) e]
  have n: "ServiceName t = ServiceName u"
    and r: "ServiceID t @ ''-'' @ ContentType t = ServiceID u @ ''-'' @ ContentType u"
    by simp_all
  from sep_split_unique [OF assms(2) assms(4) r]
  have "ServiceID t = ServiceID u" and "ContentType t = ContentType u"
    by simp_all
  with n show ?thesis by simp
qed

text \<open>
  Claim C6. The topic name is the three components joined by \<open>-\<close>, in the order service
  name, service id, content type; and two topics none of whose components contains the
  separator have the same name only if they are the same triple.
\<close>

theorem getName_injective:
  "getName \<lparr>ServiceName = n, ServiceID = d, ContentType = c\<rparr> = n @ ''-'' @ d @ ''-'' @ c \<and>
   (CHR ''-'' \<notin> set (ServiceName t) \<union> set (ServiceID t) \<union> set (ContentType t) \<longrightarrow>
    CHR ''-'' \<notin> set (ServiceName u) \<union> set (ServiceID u) \<union> set (ContentType u) \<longrightarrow>
    getName t = getName u \<longrightarrow> t = u)"
proof (intro conjI impI)
  show "getName \<lparr>ServiceName = n, ServiceID = d, ContentType = c\<rparr> = n @ ''-'' @ d @ ''-'' @ c"
    by (simp add: getName_def)
next
  assume "CHR ''-'' \<notin> set (ServiceName t) \<union> set (ServiceID t) \<union> set (ContentType t)"
    and "CHR ''-'' \<notin> set (ServiceName u) \<union> set (ServiceID u) \<union> set (ContentType u)"
    and "getName t = getName u"
  then show "t = u"
    using getName_inj_names [of t u] by simp
qed

theorem getName_injective_witness:
  "getName \<lparr>ServiceName = ''bob'', ServiceID = ''2'', ContentType = ''bees''\<rparr> = ''bob-2-bees'' \<and>
   CHR ''-'' \<notin> set ''bob'' \<union> set ''2'' \<union> set ''bees'' \<and>
   getName \<lparr>ServiceName = ''bob'', ServiceID = ''2'', ContentType = ''bees''\<rparr>
     = getName \<lparr>ServiceName = ''bob'', ServiceID = [CHR ''2''], ContentType = ''be'' @ ''es''\<rparr> \<and>
   \<lparr>ServiceName = ''bob'', ServiceID = ''2'', ContentType = ''bees''\<rparr>
     = \<lparr>ServiceName = ''bob'', ServiceID = [CHR ''2''], ContentType = ''be'' @ ''es''\<rparr>"
  using getName_injective [of "''bob''" "''2''" "''bees''"
      "\<lparr>ServiceName = ''bob'', ServiceID = ''2'', ContentType = ''bees''\<rparr>"
      "\<lparr>ServiceName = ''bob'', ServiceID = [CHR ''2''], ContentType = ''be'' @ ''es''\<rparr>"]
  by simp

subsection \<open>Responses\<close>

text \<open>
  Claim C1. The message built by \<open>NewResponse\<close> for a message \<open>m\<close> carries the message id
  of \<open>m\<close>, the given content type and payload, and has the response topic of \<open>m\<close> as the
  topic it is published on.
\<close>

theorem NewResponse_fields:
  "MessageID (NewResponse s now m ct payload) = MessageID m \<and>
   MsgContentType (NewResponse s now m ct payload) = ct \<and>
   Payload (NewResponse s now m ct payload) = payload \<and>
   Topic (NewResponse s now m ct payload) = ResponseTopic m"
  by (simp add: NewResponse_def)

subsection \<open>The actor loop\<close>

lemma actor_inv_go_start: "handlers svc = Map.empty \<Longrightarrow> actor_inv (go_start svc)"
  by (simp add: actor_inv_def go_start_def)

lemma actor_inv_step: "actor_inv s \<Longrightarrow> actor_inv (start_step s r)"
proof (cases r)
  case (addHandlerChan pair)
  assume inv: "actor_inv s"
  show ?thesis unfolding addHandlerChan actor_inv_def
  proof (intro conjI allI impI)
    fix k c assume "handlers (start_step s (addHandlerChan pair)) k = Some c"
    then show "\<exists>p. Go c p \<in> set (trace (start_step s (addHandlerChan pair))) \<and> id' p = k"
      using inv by (auto simp: actor_inv_def Let_def split: if_splits)
  next
    fix c p assume "Go c p \<in> set (trace (start_step s (addHandlerChan pair)))"
    then show "c < made (start_step s (addHandlerChan pair))"
      using inv by (auto simp: actor_inv_def Let_def less_Suc_eq)
  next
    fix c p q
    assume "Go c p \<in> set (trace (start_step s (addHandlerChan pair)))"
      and "Go c q \<in> set (trace (start_step s (addHandlerChan pair)))"
    then show "p = q"
      using inv by (fastforce simp: actor_inv_def Let_def)
  next
    fix c m assume "Send c m \<in> set (trace (start_step s (addHandlerChan pair)))"
    then have "Send c m \<in> set (trace s)" by (simp add: Let_def)
    with inv obtain p where "Go c p \<in> set (trace s)" "id' p = MessageID m"
      unfolding actor_inv_def by blast
    then show "\<exists>p. Go c p \<in> set (trace (start_step s (addHandlerChan pair))) \<and> id' p = MessageID m"
      by (auto simp: Let_def)
  qed
next
  case (removeHandlerChan pair)
  assume "actor_inv s"
  then show ?thesis unfolding removeHandlerChan
    by (auto simp: actor_inv_def split: if_splits)
next
  case (callHandlerChan msg)
  assume inv: "actor_inv s"
  show ?thesis
  proof (cases "handlers s (MessageID msg)")
    case None
    with inv show ?thesis by (simp add: callHandlerChan)
  next
    case (Some c)
    from inv Some obtain p where p: "Go c p \<in> set (trace s)" "id' p = MessageID msg"
      unfolding actor_inv_def by blast
    have st: "start_step s (callHandlerChan msg) = s\<lparr>trace := trace s @ [Send c msg]\<rparr>"
      using Some by simp
    show ?thesis unfolding callHandlerChan st actor_inv_def
    proof (intro conjI allI impI)
      fix k d assume "handlers (s\<lparr>trace := trace s @ [Send c msg]\<rparr>) k = Some d"
      then have "handlers s k = Some d" by simp
      with inv obtain q where "Go d q \<in> set (trace s)" "id' q = k"
        unfolding actor_inv_def by blast
      then show "\<exists>p. Go d p \<in> set (trace (s\<lparr>trace := trace s @ [Send c msg]\<rparr>)) \<and> id' p = k"
        by auto
    next
      fix d q assume "Go d q \<in> set (trace (s\<lparr>trace := trace s @ [Send c msg]\<rparr>))"
      then have "Go d q \<in> set (trace s)" by simp
      with inv show "d < made (s\<lparr>trace := trace s @ [Send c msg]\<rparr>)"
        unfolding actor_inv_def by auto
    next
      fix d q r
      assume "Go d q \<in> set (trace (s\<lparr>trace := trace s @ [Send c msg]\<rparr>))"
        and "Go d r \<in> set (trace (s\<lparr>trace := trace s @ [Send c msg]\<rparr>))"
      then have "Go d q \<in> set (trace s)" "Go d r \<in> set (trace s)" by simp_all
      with inv show "q = r" unfolding actor_inv_def by blast
    next
      fix d m assume "Send d m \<in> set (trace (s\<lparr>trace := trace s @ [Send c msg]\<rparr>))"
      then consider "Send d m \<in> set (trace s)" | "d = c" "m = msg" by auto
      then obtain q where "Go d q \<in> set (trace s)" "id' q = MessageID m"
      proof cases
        case 1
        with inv that show ?thesis unfolding actor_inv_def by blast
      next
        case 2
        with p that show ?thesis by blast
      qed
      then show "\<exists>p. Go d p \<in> set (trace (s\<lparr>trace := trace s @ [Send c msg]\<rparr>)) \<and> id' p = MessageID m"
        by auto
    qed
  qed
qed

lemma actor_inv_start: "actor_inv s \<Longrightarrow> actor_inv (start s reqs)"
  unfolding start_def by (induction reqs arbitrary: s) (simp_all add: actor_inv_step)

text \<open>
  Claim C2. When the handler map has no entry for the id of a dispatched message, the
  iteration leaves the whole state of the loop as it was: the handler map is unchanged,
  no message is sent to any handler channel and no goroutine is started; the loop goes
  on to its next iteration.
\<close>

theorem dispatch_miss_discards:
  "handlers s (MessageID msg) = None \<Longrightarrow> start_step s (callHandlerChan msg) = s"
  by simp

theorem dispatch_miss_discards_witness:
  "handlers (start (go_start (NewService ''alice'' ''1'' ''l:4161'' ''n:4150'' ''n:4151''))
       [addHandlerChan \<lparr>h = (0::nat), id' = ''7''\<rparr>])
     (MessageID (msg_with_id ''8'')) = None \<and>
   start_step (start (go_start (NewService ''alice'' ''1'' ''l:4161'' ''n:4150'' ''n:4151''))
       [addHandlerChan \<lparr>h = (0::nat), id' = ''7''\<rparr>])
     (callHandlerChan (msg_with_id ''8''))
   = start (go_start (NewService ''alice'' ''1'' ''l:4161'' ''n:4150'' ''n:4151''))
       [addHandlerChan \<lparr>h = (0::nat), id' = ''7''\<rparr>]"
  using dispatch_miss_discards
    [of "start (go_start (NewService ''alice'' ''1'' ''l:4161'' ''n:4150'' ''n:4151''))
       [addHandlerChan \<lparr>h = (0::nat), id' = ''7''\<rparr>]"
      "msg_with_id ''8''"]
  by (simp add: start_def go_start_def NewService_def msg_with_id_def)

text \<open>
  Claim C3. In every run of the loop of a service created with an empty handler map, a
  message is sent on the channel of a handler goroutine only if the id of the message is
  the id under which that handler was registered.
\<close>

theorem dispatch_only_matching_id:
  assumes "handlers svc = Map.empty"
    and "Go c pair \<in> set (trace (start (go_start svc) reqs))"
    and "Send c msg \<in> set (trace (start (go_start svc) reqs))"
  shows "MessageID msg = id' pair"
proof -
  have "actor_inv (start (go_start svc) reqs)"
    using assms(1) by (simp add: actor_inv_go_start actor_inv_start)
  with assms(2,3) show ?thesis unfolding actor_inv_def by metis
qed

theorem dispatch_only_matching_id_witness:
  "handlers (NewService ''alice'' ''1'' ''l:4161'' ''n:4150'' ''n:4151'') = Map.empty \<and>
   trace (start (go_start (NewService ''alice'' ''1'' ''l:4161'' ''n:4150'' ''n:4151''))
       [addHandlerChan \<lparr>h = (0::nat), id' = ''7''\<rparr>,
        addHandlerChan \<lparr>h = 1, id' = ''8''\<rparr>,
        callHandlerChan (msg_with_id ''8''),
        callHandlerChan (msg_with_id ''9''),
        callHandlerChan (msg_with_id ''7'')])
    = [Go 0 \<lparr>h = 0, id' = ''7''\<rparr>, Go 1 \<lparr>h = 1, id' = ''8''\<rparr>,
       Send 1 (msg_with_id ''8''), Send 0 (msg_with_id ''7'')] \<and>
   MessageID (msg_with_id ''7'') = id' \<lparr>h = (0::nat), id' = ''7''\<rparr>"
  using dispatch_only_matching_id
    [of "NewService ''alice'' ''1'' ''l:4161'' ''n:4150'' ''n:4151''" 0
       "\<lparr>h = (0::nat), id' = ''7''\<rparr>"
       "[addHandlerChan \<lparr>h = (0::nat), id' = ''7''\<rparr>,
        addHandlerChan \<lparr>h = 1, id' = ''8''\<rparr>,
        callHandlerChan (msg_with_id ''8''),
        callHandlerChan (msg_with_id ''9''),
        callHandlerChan (msg_with_id ''7'')]" "msg_with_id ''7''"]
  by (simp add: start_def go_start_def NewService_def msg_with_id_def)

subsection \<open>Handler goroutines and the loop\<close>

text \<open>
  The loop of the running service goes through states that iterations of \<open>start_step\<close>
  reach: what holds in every run of \<open>start\<close> holds of the loop of the running service.
\<close>

lemma sys_step_loop:
  "sys_step s ev = Some s' \<Longrightarrow> loop s' = loop s \<or> (\<exists>r. loop s' = start_step (loop s) r)"
  by (cases ev)
    (auto simp del: start_step.simps simp: sys_step_def
      split: if_splits option.splits prod.splits gstate.splits outcome.splits)

lemma sys_run_loop: "sys_run s evs = Some s' \<Longrightarrow> \<exists>reqs. loop s' = start (loop s) reqs"
proof (induction evs arbitrary: s)
  case Nil
  then have "loop s' = start (loop s) []" by (simp add: start_def)
  then show ?case by blast
next
  case (Cons ev evs)
  from Cons.prems obtain s1 where s1: "sys_step s ev = Some s1" and r: "sys_run s1 evs = Some s'"
    by (auto split: option.splits)
  from Cons.IH [OF r] obtain reqs where l: "loop s' = start (loop s1) reqs" by blast
  from sys_step_loop [OF s1] show ?case
  proof
    assume "loop s1 = loop s"
    with l show ?thesis by auto
  next
    assume "\<exists>r. loop s1 = start_step (loop s) r"
    then obtain r where "loop s1 = start_step (loop s) r" by blast
    with l have "loop s' = start (loop s) (r # reqs)" by (simp add: start_def)
    then show ?thesis by blast
  qed
qed

text \<open>
  So the routing by id holds of the running service too: a message that a handler has
  taken from its channel carries the id the handler was registered under.
\<close>

lemma sys_run_routes_by_id:
  assumes "handlers svc = Map.empty"
    and "sys_run (go_system svc) evs = Some s"
    and "Go c pair \<in> set (trace (loop s))"
    and "Send c msg \<in> set (trace (loop s))"
  shows "MessageID msg = id' pair"
proof -
  from sys_run_loop [OF assms(2)] obtain reqs where "loop s = start (go_start svc) reqs"
    by (auto simp: go_system_def)
  moreover have "actor_inv (start (go_start svc) reqs)"
    using assms(1) by (simp add: actor_inv_go_start actor_inv_start)
  ultimately have "actor_inv (loop s)" by simp
  with assms(3,4) show ?thesis unfolding actor_inv_def by metis
qed













subsection \<open>Producing and the public operations\<close>

text \<open>
  Claim C5. The actions of \<open>Request\<close> with a non-nil handler are the registration of the
  handler under the id of the message, sent to the actor, followed by the actions of
  \<open>Emit\<close> on the same message; and the actions of \<open>Emit\<close> are the publish of the encoded
  message on the topic of the message, and nothing else (nothing at all when the
  encoding fails and the process ends). So the registration comes before the publish,
  and \<open>Emit\<close> registers no handler.
\<close>

theorem Request_registers_before_publish:
  "fst (Request e s m (Some hf)) =
     ToActor (addHandlerChan \<lparr>h = hf, id' = MessageID m\<rparr>) # fst (Emit e s m) \<and>
   fst (Emit e s m) =
     (case json_Marshal e m of
        Inl err \<Rightarrow> []
      | Inr out \<Rightarrow> [Publish (getName (Topic m)) out (nsq_Publish e (getName (Topic m)) out)])"
  by (simp add: Request_def Emit_def produce_def Let_def split: sum.splits)

theorem Request_registers_before_publish_witness:
  "fst (Request example_env (NewService ''alice'' ''1'' ''l:4161'' ''n:4150'' ''n:4151'')
          (msg_with_id ''7'') (Some (0::nat)))
     = [ToActor (addHandlerChan \<lparr>h = 0, id' = ''7''\<rparr>),
        Publish ''alice-1-responses'' [3] (Some ''not connected'')] \<and>
   fst (Emit example_env (NewService ''alice'' ''1'' ''l:4161'' ''n:4150'' ''n:4151'')
          (msg_with_id ''7'') :: nat action list \<times> error option outcome)
     = [Publish ''alice-1-responses'' [3] (Some ''not connected'')]"
  using Request_registers_before_publish [of example_env
      "NewService ''alice'' ''1'' ''l:4161'' ''n:4150'' ''n:4151''" "msg_with_id ''7''" "0::nat"]
  by (simp add: example_env_def msg_with_id_def getName_def Request_def Emit_def produce_def)

lemma produce_nil: "snd (produce e s m hf) \<noteq> Return (Some err)"
  by (simp add: produce_def Let_def split: sum.splits)

lemma Announce_nil: "snd (Announce e s now ct) \<noteq> Return (Some err)"
  by (simp add: Announce_def Let_def split: sum.splits prod.splits outcome.splits)

lemma Consume_nil: "snd (Consume e s ct f res) \<noteq> Return (Some err)"
  by (simp add: Consume_def split: prod.splits outcome.splits)

text \<open>
  Claim C10. None of \<open>Emit\<close>, \<open>Request\<close>, \<open>Announce\<close> and \<open>Consume\<close> ever returns a non-nil
  error, whatever the collaborators and the handler do: each returns nil, or the process
  has been ended by \<open>log.Fatal\<close>, or the call does not return.
\<close>

theorem public_operations_return_nil:
  "snd (Emit e s m) \<noteq> Return (Some err) \<and>
   snd (Request e s m hf) \<noteq> Return (Some err) \<and>
   snd (Announce e s now ct) \<noteq> Return (Some err) \<and>
   snd (Consume e s ct f res) \<noteq> Return (Some err)"
  by (simp add: Emit_def Request_def produce_nil Announce_nil Consume_nil)

theorem public_operations_return_nil_witness:
  "snd (Emit example_env (NewService ''alice'' ''1'' ''l:4161'' ''n:4150'' ''n:4151'')
          (msg_with_id ''7'') :: nat action list \<times> error option outcome) = Return None \<and>
   snd (Request example_env (NewService ''alice'' ''1'' ''l:4161'' ''n:4150'' ''n:4151'')
          (msg_with_id ''7'') (Some (0::nat))) = Return None \<and>
   Announce example_env (NewService ''alice'' ''1'' ''l:4161'' ''n:4150'' ''n:4151'') 0 ''bees''
     = ([HttpGet ''http://n:4151/create_topic?topic=alice-1-bees'',
         Publish ''colony-announce'' [3] (Some ''not connected'')] :: nat action list, Return None) \<and>
   snd (Consume example_env (NewService ''alice'' ''1'' ''l:4161'' ''n:4150'' ''n:4151'') ''bees''
          (0::nat) (Return (Some ''handler failed''))) = Return None"
  using public_operations_return_nil [of example_env
      "NewService ''alice'' ''1'' ''l:4161'' ''n:4150'' ''n:4151''" "msg_with_id ''7''" "''x''"
      "Some (0::nat)" 0 "''bees''" "0::nat" "Return (Some ''handler failed'')"]
  by (simp add: example_env_def NewService_def Emit_def Request_def produce_def Announce_def
      createTopic_def Consume_def newConsumer_def lookupTopics_def getName_def HasSuffix_def)

subsection \<open>The response router\<close>

text \<open>
  Claim C7, as amended. When the body of an inbound message on the response topic fails
  to decode, \<open>Service.HandleMessage\<close> returns the decode error to the NSQ consumer that
  called it; it sends nothing to the actor and does not end the process.
\<close>

theorem HandleMessage_decode_failure:
  "json_Unmarshal_Message e body = Inl err \<Longrightarrow>
     HandleMessage e body = ([], Return (Some err))"
  by (simp add: HandleMessage_def)

theorem HandleMessage_decode_failure_witness:
  "json_Unmarshal_Message example_env [] = Inl ''unexpected end of JSON input'' \<and>
   HandleMessage example_env [] =
     ([] :: nat action list, Return (Some ''unexpected end of JSON input''))"
  using HandleMessage_decode_failure [of example_env "[]" "''unexpected end of JSON input''"]
  by (simp add: example_env_def)

text \<open>
  The claim as written fails: on a body that does not decode the call returns the error
  and the process goes on. (It is \<open>queueConsumer.HandleMessage\<close>, on the content-type
  subscriptions, that ends the process on a decode error.)
\<close>

theorem HandleMessage_not_fatal:
  "json_Unmarshal_Message example_env [] = Inl ''unexpected end of JSON input'' \<and>
   snd (HandleMessage example_env [] :: nat action list \<times> error option outcome)
     \<noteq> Fatal ''unexpected end of JSON input'' \<and>
   snd (HandleMessage example_env [] :: nat action list \<times> error option outcome)
     = Return (Some ''unexpected end of JSON input'')"
  by (simp add: HandleMessage_def example_env_def)

subsection \<open>The snapshot lookup\<close>

lemma HasSuffix_suffix: "HasSuffix s suf \<longleftrightarrow> suffix suf s"
proof
  assume "HasSuffix s suf"
  then have d: "drop (length s - length suf) s = suf" by (simp add: HasSuffix_def)
  have "s = take (length s - length suf) s @ drop (length s - length suf) s" by simp
  with d have "s = take (length s - length suf) s @ suf" by simp
  then show "suffix suf s" by (rule suffixI)
next
  assume "suffix suf s"
  then obtain zs where "s = zs @ suf" by (auto simp: suffix_def)
  then show "HasSuffix s suf" by (simp add: HasSuffix_def)
qed

lemma lookupTopics_loop_filter:
  "lookupTopics_loop ct topics out = out @ filter (\<lambda>t. suffix ct t) topics"
  by (induction topics arbitrary: out) (simp_all add: HasSuffix_suffix)

lemma newConsumer_loop_ok:
  "\<forall>t \<in> set topics. nsq_NewConsumer e t channel = None \<Longrightarrow>
   newConsumer_loop e channel topics = (map (\<lambda>t. Subscribe t channel) topics, Return ())"
  by (induction topics) simp_all

text \<open>
  Claim C8. When the topic registry answers with a list of topic names, \<open>lookupTopics\<close>
  returns exactly the names of the list that have the content type as a suffix, in the
  order of the list; and \<open>newConsumer\<close>, when \<open>nsq.NewConsumer\<close> accepts each of these
  names, opens one subscription for each of them on the channel \<open>Name-ID\<close> before it
  starts the watcher.
\<close>

theorem snapshot_selects_suffix_topics:
  assumes "http_Get e (''http://'' @ nsqLookupdHTTPAddr s @ ''/topics'') = Inr body"
    and "json_Unmarshal_lookupdTopic e body = Inr topics"
    and "\<forall>t \<in> set topics. suffix ct t \<longrightarrow> nsq_NewConsumer e t (Name s @ ''-'' @ ID s) = None"
  shows "lookupTopics e s ct = Return (filter (suffix ct) topics) \<and>
         (newConsumer e s ct :: 'h action list \<times> unit outcome) =
           (map (\<lambda>t. Subscribe t (Name s @ ''-'' @ ID s)) (filter (suffix ct) topics) @ [GoWatch ct],
            Return ())"
proof -
  have l: "lookupTopics e s ct = Return (filter (suffix ct) topics)"
    using assms(1,2) by (simp add: lookupTopics_def lookupTopics_loop_filter)
  have "\<forall>t \<in> set (filter (suffix ct) topics). nsq_NewConsumer e t (Name s @ ''-'' @ ID s) = None"
    using assms(3) by simp
  then have "(newConsumer_loop e (Name s @ ''-'' @ ID s) (filter (suffix ct) topics)
        :: 'h action list \<times> unit outcome) =
      (map (\<lambda>t. Subscribe t (Name s @ ''-'' @ ID s)) (filter (suffix ct) topics), Return ())"
    by (rule newConsumer_loop_ok)
  with l show ?thesis
    by (simp add: newConsumer_def)
qed

theorem snapshot_selects_suffix_topics_witness:
  "lookupTopics example_env (NewService ''alice'' ''1'' ''l:4161'' ''n:4150'' ''n:4151'') ''bees''
     = Return [''bob-2-bees'', ''carol-3-bees'', ''bees''] \<and>
   newConsumer example_env (NewService ''alice'' ''1'' ''l:4161'' ''n:4150'' ''n:4151'') ''bees''
     = ([Subscribe ''bob-2-bees'' ''alice-1'', Subscribe ''carol-3-bees'' ''alice-1'',
         Subscribe ''bees'' ''alice-1'', GoWatch ''bees''] :: nat action list, Return ())"
  using snapshot_selects_suffix_topics [of example_env
      "NewService ''alice'' ''1'' ''l:4161'' ''n:4150'' ''n:4151''" "[1]"
      "[''bob-2-bees'', ''bob-2-bees-wax'', ''carol-3-bees'', ''bees'']" "''bees''"]
  by (simp add: example_env_def NewService_def suffix_def Cons_eq_append_conv)

subsection \<open>Message ids\<close>

lemma digits_value_snoc: "digits_value (ds @ [c]) = 10 * digits_value ds + (of_char c - 48)"
  by (simp add: digits_value_def)

lemma formatBits_small: "u < 10 \<Longrightarrow> formatBits u = [char_of (48 + u)]"
  by (subst formatBits.simps) simp

lemma formatBits_large:
  "\<not> u < 10 \<Longrightarrow> formatBits u = formatBits (u div 10) @ [char_of (48 + u mod 10)]"
  by (subst formatBits.simps) simp

lemma digit_char: "d < 10 \<Longrightarrow> (of_char (char_of (48 + d :: nat)) :: nat) = 48 + d"
  by simp

lemma digits_value_formatBits: "digits_value (formatBits u) = u"
proof (induction u rule: formatBits.induct)
  case (1 u)
  show ?case
  proof (cases "u < 10")
    case True
    then show ?thesis by (simp add: formatBits_small digits_value_def)
  next
    case False
    have m: "u mod 10 < 10" by simp
    from False 1 have "digits_value (formatBits (u div 10)) = u div 10" by simp
    with False show ?thesis
      by (simp add: formatBits_large digits_value_snoc digit_char [OF m])
  qed
qed

lemma digit_not_minus: "d < 10 \<Longrightarrow> char_of (48 + d :: nat) \<noteq> CHR ''-''"
proof
  assume d: "d < 10" and "char_of (48 + d) = CHR ''-''"
  then have "(of_char (char_of (48 + d)) :: nat) = of_char CHR ''-''" by simp
  with d show False by simp
qed

lemma formatBits_hd: "\<exists>c ds. formatBits u = c # ds \<and> c \<noteq> CHR ''-''"
proof (induction u rule: formatBits.induct)
  case (1 u)
  show ?case
  proof (cases "u < 10")
    case True
    with digit_not_minus show ?thesis by (simp add: formatBits_small)
  next
    case False
    with 1 obtain c ds where "formatBits (u div 10) = c # ds" "c \<noteq> CHR ''-''" by blast
    with False show ?thesis by (simp add: formatBits_large)
  qed
qed

lemma id_value_Itoa: "id_value (Itoa n) = n"
proof -
  obtain c ds where f: "formatBits (nat n) = c # ds" "c \<noteq> CHR ''-''"
    using formatBits_hd by blast
  show ?thesis
  proof (cases "n < 0")
    case True
    then show ?thesis by (simp add: Itoa_def id_value_def digits_value_formatBits)
  next
    case False
    have "digits_value (c # ds) = nat n" using digits_value_formatBits [of "nat n"] f by simp
    with False f show ?thesis by (simp add: Itoa_def id_value_def)
  qed
qed

lemma sint_succ:
  fixes w :: "64 word"
  assumes "sint w + 1 < 2 ^ 63"
  shows "sint (w + 1) = sint w + 1"
proof -
  have "- (2 ^ 63) \<le> sint w" using sint_ge [of w] by simp
  then have "- (2 ^ 63) \<le> sint w + 1" by simp
  with assms have "signed_take_bit 63 (sint w + 1) = sint w + 1"
    by (intro signed_take_bit_int_eq_self) simp_all
  then show ?thesis by (simp add: sint_word_add)
qed

lemma NewMessage_id:
  "NewMessage s now ct payload = (m, s') \<Longrightarrow>
     MessageID m = Itoa (sint (i s + 1)) \<and> i s' = i s + 1"
  by (auto simp: NewMessage_def nextID_def Let_def)

lemma NewMessage_calls_above:
  "sint (i s) + int (length calls) < 2 ^ 63 \<Longrightarrow>
   m \<in> set (NewMessage_calls s calls) \<Longrightarrow> sint (i s) < id_value (MessageID m)"
proof (induction calls arbitrary: s)
  case Nil
  then show ?case by simp
next
  case (Cons c calls)
  obtain now ct payload where c: "c = (now, ct, payload)" by (cases c) auto
  obtain m0 s' where n: "NewMessage s now ct payload = (m0, s')" by (cases "NewMessage s now ct payload")
  from NewMessage_id [OF n] have mid: "MessageID m0 = Itoa (sint (i s + 1))" and i': "i s' = i s + 1"
    by simp_all
  from Cons.prems(1) have "sint (i s) + 1 < 2 ^ 63" by simp
  then have su: "sint (i s + 1) = sint (i s) + 1" by (rule sint_succ)
  from Cons.prems(2) c n consider "m = m0" | "m \<in> set (NewMessage_calls s' calls)" by auto
  then show ?case
  proof cases
    case 1
    with mid su show ?thesis by (simp add: id_value_Itoa)
  next
    case 2
    from Cons.prems(1) i' su have "sint (i s') + int (length calls) < 2 ^ 63" by simp
    from Cons.IH [OF this 2] i' su show ?thesis by simp
  qed
qed

text \<open>
  Claim C9, as amended. The ids given to successive calls of \<open>NewMessage\<close> on one service
  denote strictly increasing integers as long as the 64-bit counter does not wrap around,
  that is while the counter before the calls plus the number of calls stays below
  \<open>2 ^ 63\<close>.
\<close>

theorem NewMessage_ids_increase:
  assumes "sint (i s) + int (length calls) < 2 ^ 63"
  shows "sorted_wrt (<) (map (\<lambda>m. id_value (MessageID m)) (NewMessage_calls s calls))"
  using assms
proof (induction calls arbitrary: s)
  case Nil
  then show ?case by simp
next
  case (Cons c calls)
  obtain now ct payload where c: "c = (now, ct, payload)" by (cases c) auto
  obtain m0 s' where n: "NewMessage s now ct payload = (m0, s')" by (cases "NewMessage s now ct payload")
  from NewMessage_id [OF n] have mid: "MessageID m0 = Itoa (sint (i s + 1))" and i': "i s' = i s + 1"
    by simp_all
  from Cons.prems have "sint (i s) + 1 < 2 ^ 63" by simp
  then have su: "sint (i s + 1) = sint (i s) + 1" by (rule sint_succ)
  from Cons.prems i' su have b: "sint (i s') + int (length calls) < 2 ^ 63" by simp
  have "\<forall>m \<in> set (NewMessage_calls s' calls). id_value (MessageID m0) < id_value (MessageID m)"
    using NewMessage_calls_above [OF b] mid i' by (simp add: id_value_Itoa)
  with Cons.IH [OF b] c n show ?case by simp
qed

theorem NewMessage_ids_increase_witness:
  "sint (i (NewService ''alice'' ''1'' ''l:4161'' ''n:4150'' ''n:4151'')) + int (length [(0::int, ''q'', []::bytes), (5, ''r'', []), (9, ''q'', [])]) < 2 ^ 63 \<and>
   sorted_wrt (<) (map (\<lambda>m. id_value (MessageID m))
     (NewMessage_calls (NewService ''alice'' ''1'' ''l:4161'' ''n:4150'' ''n:4151'')
        [(0, ''q'', []), (5, ''r'', []), (9, ''q'', [])]))"
  using NewMessage_ids_increase [of "NewService ''alice'' ''1'' ''l:4161'' ''n:4150'' ''n:4151''"
     "[(0, ''q'', []), (5, ''r'', []), (9, ''q'', [])]"]
  by (simp add: NewService_def)

text \<open>
  The claim as written fails at the wrap-around of the counter: from the counter value
  \<open>2 ^ 63 - 2\<close> the first call gets the id of \<open>2 ^ 63 - 1\<close>, the second the id of
  \<open>- 2 ^ 63\<close>.
\<close>

theorem NewMessage_ids_wrap:
  "map (\<lambda>m. id_value (MessageID m))
     (NewMessage_calls
        ((NewService ''alice'' ''1'' ''l:4161'' ''n:4150'' ''n:4151'')\<lparr>i := 9223372036854775806\<rparr>)
        [(0, ''q'', []), (5, ''q'', [])])
   = [9223372036854775807, - 9223372036854775808] \<and>
   \<not> sorted_wrt (<) (map (\<lambda>m. id_value (MessageID m))
     (NewMessage_calls
        ((NewService ''alice'' ''1'' ''l:4161'' ''n:4150'' ''n:4151'')\<lparr>i := 9223372036854775806\<rparr>)
        [(0, ''q'', []), (5, ''q'', [])]))"
  by (simp add: NewMessage_def nextID_def id_value_Itoa)

end
